theory Spec2Isabelle
  imports Main
begin

section \<open>Data model of \<open>sim.py\<close>\<close>

text \<open>
  The four MESI states are the string constants \<open>"I"\<close>, \<open>"S"\<close>, \<open>"E"\<close>, \<open>"M"\<close> of the
  source; they are the only values ever stored in \<open>CacheLine.state\<close>.
\<close>

datatype mesi = INVALID | SHARED | EXCLUSIVE | MODIFIED

text \<open>
  \<open>CacheLine\<close>: the dataclass, field by field. \<open>owner\<close> is \<open>Optional[int]\<close>. The
  elements of \<open>sharers\<close> are the Python objects put into the set: core numbers, and the
  value of \<open>line.owner\<close> in \<open>{core, line.owner}\<close>, which may be \<open>None\<close>; hence the
  element type \<open>int option\<close>, a core \<open>k\<close> being \<open>Some k\<close>.
\<close>

record CacheLine =
  tag :: int
  state :: mesi
  owner :: "int option"
  sharers :: "int option set"
  last_writer_core :: int
  last_word :: int
  fs_conf :: int
  fs_suspect :: bool

definition CacheLine_init :: CacheLine where
  "CacheLine_init =
     \<lparr>tag = -1, state = INVALID, owner = None, sharers = {},
      last_writer_core = -1, last_word = 0, fs_conf = 0, fs_suspect = False\<rparr>"

record Config =
  line_bytes :: int
  sets :: int
  assoc :: int
  word_bytes :: int
  fs_threshold :: int
  false_sharing_fix :: bool
  hit_latency :: int
  miss_latency :: int
  inv_latency :: int

definition Config_default :: Config where
  "Config_default =
     \<lparr>line_bytes = 64, sets = 64, assoc = 8, word_bytes = 4, fs_threshold = 2,
      false_sharing_fix = False, hit_latency = 4, miss_latency = 40, inv_latency = 10\<rparr>"

text \<open>The exceptions the modelled code can raise.\<close>

datatype error = ZeroDivisionError | IndexError | ValueError

text \<open>
  \<open>stats\<close> is a \<open>defaultdict(int)\<close>: a missing key reads as 0, and \<open>stats[k] += n\<close>
  stores the key.
\<close>

type_synonym stats = "string \<rightharpoonup> int"

definition stat :: "stats \<Rightarrow> string \<Rightarrow> int" where
  "stat st k = (case st k of None \<Rightarrow> 0 | Some v \<Rightarrow> v)"

definition bump :: "stats \<Rightarrow> string \<Rightarrow> int \<Rightarrow> stats" where
  "bump st k n = st(k \<mapsto> stat st k + n)"

text \<open>
  \<open>Logger\<close>: \<open>writer\<close> tells whether a csv writer exists (a truthy path was given),
  \<open>event_id\<close> is the counter, \<open>rows\<close> the data rows written after the header row.
\<close>

record Logger =
  writer :: bool
  event_id :: int
  rows :: "int list list"

definition Logger_init :: "string option \<Rightarrow> Logger" where
  "Logger_init path =
     \<lparr>writer = (case path of None \<Rightarrow> False | Some p \<Rightarrow> p \<noteq> []), event_id = 0, rows = []\<rparr>"

definition log_suspect :: "Logger \<Rightarrow> int \<Rightarrow> CacheLine \<Rightarrow> int \<Rightarrow> Logger" where
  "log_suspect lg core line widx =
     (if \<not> writer lg then lg
      else lg\<lparr>event_id := event_id lg + 1,
              rows := rows lg @
                [[event_id lg + 1, tag line, core, widx, last_writer_core line,
                  last_word line, fs_conf line, (if fs_suspect line then 1 else 0)]]\<rparr>)"

text \<open>
  \<open>Cache\<close>: the configuration, the matrix of lines (one row per set) and one
  replacement cursor per set. \<open>range(n)\<close> is empty for \<open>n \<le> 0\<close>.
\<close>

record Cache =
  cfg :: Config
  lines :: "CacheLine list list"
  repl_idx :: "int list"

definition Cache_init :: "Config \<Rightarrow> Cache" where
  "Cache_init cf =
     \<lparr>cfg = cf,
      lines = replicate (nat (sets cf)) (replicate (nat (assoc cf)) CacheLine_init),
      repl_idx = replicate (nat (sets cf)) 0\<rparr>"

text \<open>
  Python list indexing: a negative index counts from the end, an index out of range
  raises \<open>IndexError\<close>. The result is the position in the list.
\<close>

definition py_index :: "'a list \<Rightarrow> int \<Rightarrow> error + nat" where
  "py_index xs i =
     (let n = int (length xs); j = (if i < 0 then n + i else i)
      in if 0 \<le> j \<and> j < n then Inr (nat j) else Inl IndexError)"

text \<open>
  \<open>_index_tag\<close> and \<open>_word_idx\<close>. \<open>//\<close> and \<open>%\<close> are floor division and its remainder,
  as \<open>div\<close> and \<open>mod\<close> on \<open>int\<close> are; a zero divisor raises.
\<close>

definition index_tag :: "Config \<Rightarrow> int \<Rightarrow> error + (int \<times> int)" where
  "index_tag cf addr =
     (if line_bytes cf = 0 then Inl ZeroDivisionError
      else let line_addr = addr div line_bytes cf
           in if sets cf = 0 then Inl ZeroDivisionError
              else Inr (line_addr mod sets cf, line_addr))"

definition word_idx :: "Config \<Rightarrow> int \<Rightarrow> error + int" where
  "word_idx cf addr =
     (if word_bytes cf = 0 then Inl ZeroDivisionError
      else if line_bytes cf div word_bytes cf = 0 then Inl ZeroDivisionError
      else Inr ((addr div word_bytes cf) mod (line_bytes cf div word_bytes cf)))"

text \<open>
  The search loop of \<open>probe\<close>: the first way of the row whose tag matches and whose state
  is not Invalid.
\<close>

fun find_hit :: "CacheLine list \<Rightarrow> int \<Rightarrow> nat option" where
  "find_hit [] tg = None"
| "find_hit (l # ls) tg =
     (if tag l = tg \<and> state l \<noteq> INVALID then Some 0
      else map_option Suc (find_hit ls tg))"

text \<open>
  A line object returned by \<open>probe\<close> is a reference into the matrix; the model returns
  its position (row, way), and \<open>line_at\<close> / \<open>set_line\<close> read and write through it.
\<close>

definition line_at :: "Cache \<Rightarrow> nat \<times> nat \<Rightarrow> CacheLine" where
  "line_at c loc = lines c ! fst loc ! snd loc"

definition set_line :: "Cache \<Rightarrow> nat \<times> nat \<Rightarrow> CacheLine \<Rightarrow> Cache" where
  "set_line c loc l = c\<lparr>lines := (lines c)[fst loc := (lines c ! fst loc)[snd loc := l]]\<rparr>"

text \<open>
  \<open>probe\<close>. On a hit it returns at once, the cache untouched. Otherwise the victim is
  the line under the set's cursor, the cursor moves on, and the victim's tag, state,
  owner and sharers are overwritten; the detector fields stay.
\<close>

definition probe :: "Cache \<Rightarrow> int \<Rightarrow> error + (Cache \<times> (nat \<times> nat) \<times> bool)" where
  "probe c addr =
     (case index_tag (cfg c) addr of
        Inl e \<Rightarrow> Inl e
      | Inr (idx, tg) \<Rightarrow>
          (case py_index (lines c) idx of
             Inl e \<Rightarrow> Inl e
           | Inr i \<Rightarrow>
               (case find_hit (lines c ! i) tg of
                  Some w \<Rightarrow> Inr (c, (i, w), True)
                | None \<Rightarrow>
                    (case py_index (repl_idx c) idx of
                       Inl e \<Rightarrow> Inl e
                     | Inr j \<Rightarrow>
                         (case py_index (lines c ! i) (repl_idx c ! j) of
                            Inl e \<Rightarrow> Inl e
                          | Inr w \<Rightarrow>
                              if assoc (cfg c) = 0 then Inl ZeroDivisionError
                              else
                                let c1 = c\<lparr>repl_idx := (repl_idx c)
                                           [j := (repl_idx c ! j + 1) mod assoc (cfg c)]\<rparr>;
                                    repl = line_at c1 (i, w)
                                in Inr (set_line c1 (i, w)
                                          (repl\<lparr>tag := tg, state := INVALID,
                                                owner := None, sharers := {}\<rparr>),
                                        (i, w), False))))))"

text \<open>\<open>_maybe_detect\<close>, on one line.\<close>

definition maybe_detect ::
  "Config \<Rightarrow> CacheLine \<Rightarrow> int \<Rightarrow> int \<Rightarrow> stats \<Rightarrow> Logger \<Rightarrow> CacheLine \<times> stats \<times> Logger" where
  "maybe_detect cf line core widx st lg =
     (if state line = INVALID then (line, st, lg)
      else if last_writer_core line \<noteq> -1 \<and> last_writer_core line \<noteq> core
              \<and> last_word line \<noteq> widx
      then
        let l1 = line\<lparr>fs_conf := min (fs_conf line + 1) 3\<rparr>;
            latch = (fs_conf l1 \<ge> fs_threshold cf \<and> \<not> fs_suspect l1);
            l2 = (if latch then l1\<lparr>fs_suspect := True\<rparr> else l1);
            st2 = (if latch then bump st ''suspect_lines'' 1 else st)
        in (l2, bump st2 ''suspect_events'' 1, log_suspect lg core l2 widx)
      else (line\<lparr>fs_conf := max (fs_conf line - 1) 0\<rparr>, st, lg))"

text \<open>
  The test guarding every charge in \<open>access\<close> is
  \<open>not (line.fs_suspect and cfg.false_sharing_fix and line.last_word != word_idx)\<close>;
  \<open>suppressed\<close> is the condition under the \<open>not\<close>.
\<close>

definition suppressed :: "Config \<Rightarrow> CacheLine \<Rightarrow> int \<Rightarrow> bool" where
  "suppressed cf line widx =
     (fs_suspect line \<and> false_sharing_fix cf \<and> last_word line \<noteq> widx)"

text \<open>The \<open>if hit:\<close> branch of \<open>access\<close>, acting on the line that \<open>probe\<close> returned.\<close>

definition access_hit ::
  "Config \<Rightarrow> CacheLine \<Rightarrow> int \<Rightarrow> bool \<Rightarrow> int \<Rightarrow> stats \<Rightarrow> Logger \<Rightarrow> CacheLine \<times> stats \<times> Logger" where
  "access_hit cf line core is_write widx st lg =
     (let (l', st', lg') =
        (if is_write then
           (if state line \<in> {SHARED, EXCLUSIVE, MODIFIED} \<and> owner line \<noteq> Some core then
              (case maybe_detect cf line core widx st lg of
                 (l1, st1, lg1) \<Rightarrow>
                   let (l2, st2) =
                     (if \<not> suppressed cf l1 widx then
                        (l1\<lparr>sharers := {Some core}\<rparr>,
                         bump (bump st1 ''invalidations''
                                 (int (card (sharers l1 - {Some core}))))
                              ''stall_cycles'' (inv_latency cf))
                      else
                        (l1, bump st1 ''avoided_invalidations''
                               (int (card (sharers l1 - {Some core})))))
                   in (l2\<lparr>owner := Some core, state := MODIFIED\<rparr>, st2, lg1))
            else (line\<lparr>owner := Some core, state := MODIFIED\<rparr>, st, lg))
         else
           (if state line = MODIFIED \<and> owner line \<noteq> Some core then
              (case maybe_detect cf line core widx st lg of
                 (l1, st1, lg1) \<Rightarrow>
                   if \<not> suppressed cf l1 widx then
                     (l1\<lparr>sharers := {Some core, owner l1}, state := SHARED\<rparr>,
                      bump (bump st1 ''invalidations'' 1) ''stall_cycles'' (inv_latency cf),
                      lg1)
                   else
                     (l1\<lparr>sharers := insert (Some core) (sharers l1), state := SHARED\<rparr>,
                      bump st1 ''avoided_invalidations'' 1, lg1))
            else
              (let l1 = line\<lparr>sharers := insert (Some core) (sharers line)\<rparr>
               in ((if state l1 = EXCLUSIVE then l1\<lparr>state := SHARED\<rparr> else l1), st, lg))))
      in (l', bump st' ''hits'' 1, lg'))"

text \<open>
  The \<open>else:\<close> (miss) branch of \<open>access\<close>. \<open>tg\<close> is \<open>self._index_tag(addr)[1]\<close>. The
  write and the read arm differ only in the state they assign.
\<close>

definition access_miss ::
  "Config \<Rightarrow> CacheLine \<Rightarrow> int \<Rightarrow> bool \<Rightarrow> int \<Rightarrow> int \<Rightarrow> stats \<Rightarrow> Logger \<Rightarrow> CacheLine \<times> stats \<times> Logger" where
  "access_miss cf line core is_write widx tg st lg =
     (case maybe_detect cf line core widx st lg of
        (l1, st1, lg1) \<Rightarrow>
          let st2 =
                (if state l1 \<noteq> INVALID \<and> owner l1 \<noteq> None \<and> owner l1 \<noteq> Some core then
                   (if \<not> suppressed cf l1 widx then
                      bump (bump st1 ''invalidations'' 1) ''stall_cycles'' (inv_latency cf)
                    else bump st1 ''avoided_invalidations'' 1)
                 else st1);
              l2 = l1\<lparr>owner := Some core,
                      state := (if is_write then MODIFIED else EXCLUSIVE),
                      sharers := {Some core}\<rparr>;
              l3 = l2\<lparr>tag := tg\<rparr>
          in (l3, bump (bump st2 ''misses'' 1) ''stall_cycles'' (miss_latency cf), lg1))"

text \<open>The closing statement of \<open>access\<close>: the detector metadata.\<close>

definition update_meta :: "CacheLine \<Rightarrow> int \<Rightarrow> bool \<Rightarrow> int \<Rightarrow> CacheLine" where
  "update_meta line core is_write widx =
     (if is_write \<or> owner line = Some core
      then line\<lparr>last_writer_core := core, last_word := widx\<rparr> else line)"

text \<open>\<open>Cache.access\<close>.\<close>

definition access ::
  "Cache \<Rightarrow> int \<Rightarrow> bool \<Rightarrow> int \<Rightarrow> stats \<Rightarrow> Logger \<Rightarrow> error + (Cache \<times> stats \<times> Logger)" where
  "access c core is_write addr st lg =
     (case word_idx (cfg c) addr of
        Inl e \<Rightarrow> Inl e
      | Inr widx \<Rightarrow>
          (case probe c addr of
             Inl e \<Rightarrow> Inl e
           | Inr (c1, loc, hit) \<Rightarrow>
               (case (if hit then access_hit (cfg c) (line_at c1 loc) core is_write widx st lg
                      else access_miss (cfg c) (line_at c1 loc) core is_write widx
                             (addr div line_bytes (cfg c)) st lg) of
                  (l', st', lg') \<Rightarrow>
                    Inr (set_line c1 loc (update_meta l' core is_write widx), st', lg'))))"

section \<open>The trace runner\<close>

text \<open>
  A trace is the list of the lines of the trace file; a character is a code point below
  256. \<open>str.strip\<close> and \<open>str.split\<close> work on whitespace, which below 256 is: tab, line
  feed, vertical tab, form feed, carriage return (9 to 13), the four separators 28 to 31,
  space (32), next line (133) and no-break space (160).
\<close>

definition is_space :: "char \<Rightarrow> bool" where
  "is_space ch =
     (ch \<in> {CHR 0x09, CHR 0x0A, CHR 0x0B, CHR 0x0C, CHR 0x0D, CHR 0x1C, CHR 0x1D, CHR 0x1E,
             CHR 0x1F, CHR 0x20, CHR 0x85, CHR 0xA0})"

definition strip :: "string \<Rightarrow> string" where
  "strip s = rev (dropWhile is_space (rev (dropWhile is_space s)))"

text \<open>\<open>split_from s cur\<close>: the words of \<open>s\<close>, \<open>cur\<close> being the word read so far.\<close>

fun split_from :: "string \<Rightarrow> string \<Rightarrow> string list" where
  "split_from [] cur = (if cur = [] then [] else [cur])"
| "split_from (ch # cs) cur =
     (if is_space ch then (if cur = [] then split_from cs [] else cur # split_from cs [])
      else split_from cs (cur @ [ch]))"

definition split :: "string \<Rightarrow> string list" where
  "split s = split_from s []"

text \<open>
  \<open>str.upper\<close> and \<open>str.startswith\<close>. The only use of the uppercased token is the test
  \<open>op.startswith("W")\<close>. \<open>upper_char\<close> maps the ASCII letters; it leaves every other
  character as it is, and none of those has an uppercase form that begins with \<open>W\<close>.
\<close>

definition upper_char :: "char \<Rightarrow> char" where
  "upper_char ch =
     (case map_of (zip ''abcdefghijklmnopqrstuvwxyz'' ''ABCDEFGHIJKLMNOPQRSTUVWXYZ'') ch of
        Some u \<Rightarrow> u
      | None \<Rightarrow> ch)"

definition upper :: "string \<Rightarrow> string" where
  "upper s = map upper_char s"

definition startswith :: "string \<Rightarrow> string \<Rightarrow> bool" where
  "startswith s p = (take (length p) s = p)"

text \<open>
  One record of the trace, as the loop body of \<open>run_trace\<close> reads it. The builtin
  \<open>int\<close> is a parameter: \<open>int10 s\<close> stands for \<open>int(s)\<close> and \<open>int0 s\<close> for
  \<open>int(s, 0)\<close>, \<open>None\<close> meaning that the builtin raises \<open>ValueError\<close>. The result is
  \<open>None\<close> for a line that the loop skips, and the triple (core, is_write, addr)
  otherwise.
\<close>

definition parse_record ::
  "(string \<Rightarrow> int option) \<Rightarrow> (string \<Rightarrow> int option) \<Rightarrow> string
     \<Rightarrow> error + (int \<times> bool \<times> int) option" where
  "parse_record int10 int0 line =
     (if strip line = [] \<or> startswith line ''#'' then Inr None
      else
        let parts = split (strip line) in
        (case py_index parts 0 of
           Inl e \<Rightarrow> Inl e
         | Inr i0 \<Rightarrow>
             (case int10 (parts ! i0) of
                None \<Rightarrow> Inl ValueError
              | Some core \<Rightarrow>
                  (case py_index parts 1 of
                     Inl e \<Rightarrow> Inl e
                   | Inr i1 \<Rightarrow>
                       let op = upper (parts ! i1) in
                       (case py_index parts 2 of
                          Inl e \<Rightarrow> Inl e
                        | Inr i2 \<Rightarrow>
                            (case int0 (parts ! i2) of
                               None \<Rightarrow> Inl ValueError
                             | Some addr \<Rightarrow>
                                 let is_write = startswith op ''W''
                                 in Inr (Some (core, is_write, addr))))))))"

text \<open>
  The body of the loop of \<open>run_trace\<close>, for one line of the trace: the state is the
  cache, the counters and the logger.
\<close>

definition step_line ::
  "(string \<Rightarrow> int option) \<Rightarrow> (string \<Rightarrow> int option) \<Rightarrow> Config \<Rightarrow> string
     \<Rightarrow> Cache \<times> stats \<times> Logger \<Rightarrow> error + (Cache \<times> stats \<times> Logger)" where
  "step_line int10 int0 cf line s =
     (case parse_record int10 int0 line of
        Inl e \<Rightarrow> Inl e
      | Inr None \<Rightarrow> Inr s
      | Inr (Some (core, is_write, addr)) \<Rightarrow>
          (case s of
             (c, st, lg) \<Rightarrow>
               (case access c core is_write addr st lg of
                  Inl e \<Rightarrow> Inl e
                | Inr (c', st', lg') \<Rightarrow>
                    Inr (c', bump (bump st' ''instructions'' 1) ''stall_cycles'' (hit_latency cf),
                         lg'))))"

text \<open>The loop of \<open>run_trace\<close> over the lines of the trace.\<close>

fun run_lines ::
  "(string \<Rightarrow> int option) \<Rightarrow> (string \<Rightarrow> int option) \<Rightarrow> Config \<Rightarrow> string list
     \<Rightarrow> Cache \<times> stats \<times> Logger \<Rightarrow> error + (Cache \<times> stats \<times> Logger)" where
  "run_lines int10 int0 cf [] s = Inr s"
| "run_lines int10 int0 cf (line # rest) s =
     (case step_line int10 int0 cf line s of
        Inl e \<Rightarrow> Inl e
      | Inr s' \<Rightarrow> run_lines int10 int0 cf rest s')"

text \<open>
  The derived metrics are floats. Python's float arithmetic is a parameter, a record
  of the four operations used: \<open>x * 1000.0\<close> for an int \<open>x\<close>, a float divided by an
  int, the true division of two ints, and the constant \<open>0.0\<close>.
\<close>

record 'f float_ops =
  times_1000 :: "int \<Rightarrow> 'f"
  fdiv_int :: "'f \<Rightarrow> int \<Rightarrow> 'f"
  truediv :: "int \<Rightarrow> int \<Rightarrow> 'f"
  fzero :: 'f

datatype 'f pyval = PyInt int | PyFloat 'f

text \<open>
  The end of \<open>run_trace\<close>. Reading \<open>stats["invalidations"]\<close> and
  \<open>stats["stall_cycles"]\<close> stores the key when it is missing.
\<close>

definition touch :: "stats \<Rightarrow> string \<Rightarrow> stats" where
  "touch st k = st(k \<mapsto> stat st k)"

definition derived :: "'f float_ops \<Rightarrow> stats \<Rightarrow> (string \<rightharpoonup> 'f pyval)" where
  "derived fo st =
     (let inv = stat st ''invalidations'';
          st1 = touch st ''invalidations'';
          instr = max (stat st1 ''instructions'') 1;
          st2 = touch st1 ''instructions'';
          ipki = fdiv_int fo (times_1000 fo inv) instr;
          total_cycles = stat st2 ''stall_cycles'';
          st3 = touch st2 ''stall_cycles'';
          ipc_proxy = (if total_cycles \<noteq> 0 then truediv fo instr total_cycles else fzero fo)
      in ((map_option PyInt \<circ> st3)(''ipki'' \<mapsto> PyFloat ipki))(''ipc_proxy'' \<mapsto> PyFloat ipc_proxy))"

text \<open>
  \<open>run_trace\<close>: the returned dictionary, together with the logger as it is when it
  is closed (what was written to the log file).
\<close>

definition init_state :: "Config \<Rightarrow> string option \<Rightarrow> Cache \<times> stats \<times> Logger" where
  "init_state cf log_path =
     (Cache_init cf, Map.empty(''instructions'' \<mapsto> 0), Logger_init log_path)"

definition run_trace ::
  "'f float_ops \<Rightarrow> (string \<Rightarrow> int option) \<Rightarrow> (string \<Rightarrow> int option) \<Rightarrow> string list
     \<Rightarrow> Config \<Rightarrow> string option \<Rightarrow> error + ((string \<rightharpoonup> 'f pyval) \<times> Logger)" where
  "run_trace fo int10 int0 trace cf log_path =
     (case run_lines int10 int0 cf trace (init_state cf log_path) of
        Inl e \<Rightarrow> Inl e
      | Inr (c, st, lg) \<Rightarrow> Inr (derived fo st, lg))"

text \<open>The dictionary returned is a \<open>defaultdict(int)\<close> too.\<close>

definition result_get :: "(string \<rightharpoonup> 'f pyval) \<Rightarrow> string \<Rightarrow> 'f pyval" where
  "result_get r k = (case r k of None \<Rightarrow> PyInt 0 | Some v \<Rightarrow> v)"

text \<open>
  The builtin \<open>int\<close> on a string, for the two calls of \<open>run_trace\<close>: \<open>py_int 10 s\<close> is
  \<open>int(s)\<close> and \<open>py_int 0 s\<close> is \<open>int(s, 0)\<close>; \<open>None\<close> stands for \<open>ValueError\<close>.
  The string is stripped of whitespace; then comes an optional sign; with base 0 a
  prefix \<open>0x\<close>, \<open>0o\<close> or \<open>0b\<close> (either case) selects base 16, 8 or 2 and may be followed
  by one underscore; then come the digits (\<open>digit_value\<close>: \<open>0\<close> to \<open>9\<close>, then the letters
  from 10 on, either case), single underscores allowed between them.
  With base 0 a decimal numeral that begins with \<open>0\<close> must have the value 0. A decimal
  numeral of more than 4300 digits is refused (the interpreter's default limit on the
  conversion). Below code point 256 the decimal digits are \<open>0\<close> to \<open>9\<close> only.
\<close>

definition digit_value :: "char \<Rightarrow> nat option" where
  "digit_value ch =
     (case map_of (zip ''0123456789abcdefghijklmnopqrstuvwxyz'' [0 ..< 36]) ch of
        Some d \<Rightarrow> Some d
      | None \<Rightarrow> map_of (zip ''ABCDEFGHIJKLMNOPQRSTUVWXYZ'' [10 ..< 36]) ch)"

text \<open>
  \<open>scan_digits b s prev\<close>: the digits of \<open>s\<close> in base \<open>b\<close>; \<open>prev\<close> tells that the
  character before was an underscore.
\<close>

fun scan_digits :: "nat \<Rightarrow> string \<Rightarrow> bool \<Rightarrow> nat list option" where
  "scan_digits b [] prev = (if prev then None else Some [])"
| "scan_digits b (ch # cs) prev =
     (if ch = CHR ''_'' then (if prev then None else scan_digits b cs True)
      else (case digit_value ch of
              None \<Rightarrow> None
            | Some d \<Rightarrow>
                if d < b then map_option ((#) d) (scan_digits b cs False) else None))"

definition py_int :: "nat \<Rightarrow> string \<Rightarrow> int option" where
  "py_int base s =
     (let t = strip s;
          signed = (t \<noteq> [] \<and> (hd t = CHR ''+'' \<or> hd t = CHR ''-''));
          neg = (t \<noteq> [] \<and> hd t = CHR ''-'');
          t1 = (if signed then tl t else t);
          pre = (if base = 0 \<and> 2 \<le> length t1 \<and> hd t1 = CHR ''0'' then
                   (if t1 ! 1 = CHR ''x'' \<or> t1 ! 1 = CHR ''X'' then 16
                    else if t1 ! 1 = CHR ''o'' \<or> t1 ! 1 = CHR ''O'' then 8
                    else if t1 ! 1 = CHR ''b'' \<or> t1 ! 1 = CHR ''B'' then 2
                    else 0)
                 else 0);
          b = (if pre = 0 then 10 else pre);
          zero_only = (base = 0 \<and> pre = 0 \<and> t1 \<noteq> [] \<and> hd t1 = CHR ''0'');
          t2 = (if pre = 0 then t1
                else (let r = drop 2 t1
                      in if r \<noteq> [] \<and> hd r = CHR ''_'' then tl r else r))
      in if t2 = [] then None
         else if hd t2 = CHR ''_'' then None
         else (case scan_digits b t2 False of
                 None \<Rightarrow> None
               | Some ds \<Rightarrow>
                   if b = 10 \<and> 4300 < int (length ds) then None
                   else
                     let v = foldl (\<lambda>a d. a * int b + int d) 0 ds
                     in if zero_only \<and> v \<noteq> 0 then None
                        else Some (if neg then - v else v)))"

text \<open>
  The parts of a state of the run: the cache, the counters and the logger of a result
  that is not an exception.
\<close>

definition cache_of :: "error + (Cache \<times> stats \<times> Logger) \<Rightarrow> Cache" where
  "cache_of r = fst (projr r)"

definition stats_of :: "error + (Cache \<times> stats \<times> Logger) \<Rightarrow> stats" where
  "stats_of r = fst (snd (projr r))"

definition logger_of :: "error + (Cache \<times> stats \<times> Logger) \<Rightarrow> Logger" where
  "logger_of r = snd (snd (projr r))"

text \<open>
  The position, in \<open>repl_idx\<close>, of the cursor of the set that an address maps to
  (\<open>self.repl_idx[idx]\<close> in \<open>probe\<close>).
\<close>

definition cursor_pos :: "Cache \<Rightarrow> int \<Rightarrow> nat" where
  "cursor_pos c addr = projr (py_index (repl_idx c) (fst (projr (index_tag (cfg c) addr))))"

text \<open>
  Configurations of the examples: the defaults with the mitigation switched on
  (\<open>--false-sharing-fix\<close>), a cache of one set with one way, and a cache of two sets
  with two ways, without and with the mitigation.
\<close>

definition cfg_fix :: Config where
  "cfg_fix = Config_default\<lparr>false_sharing_fix := True\<rparr>"

definition cfg_1way :: Config where
  "cfg_1way = Config_default\<lparr>sets := 1, assoc := 1\<rparr>"

definition cfg_small :: Config where
  "cfg_small = Config_default\<lparr>sets := 2, assoc := 2\<rparr>"

definition cfg_small_fix :: Config where
  "cfg_small_fix = cfg_small\<lparr>false_sharing_fix := True\<rparr>"

text \<open>
  The loop of \<open>run_trace\<close> with the builtin \<open>int\<close> in place: the cache, the counters and
  the logger when the last line of the trace has been processed.
\<close>

definition run_text :: "Config \<Rightarrow> string option \<Rightarrow> string list \<Rightarrow> error + (Cache \<times> stats \<times> Logger)" where
  "run_text cf log_path trace = run_lines (py_int 10) (py_int 0) cf trace (init_state cf log_path)"

text \<open>
  An exact stand-in for the float operations, for the examples: a float is kept as the
  pair of the numerator and the denominator of the quotient that the code computes.
\<close>

definition frac_ops :: "(int \<times> int) float_ops" where
  "frac_ops =
     \<lparr>times_1000 = (\<lambda>x. (x * 1000, 1)),
      fdiv_int = (\<lambda>(a, b) n. (a, b * n)),
      truediv = (\<lambda>a b. (a, b)),
      fzero = (0, 1)\<rparr>"

text \<open>
  The part of the spec's line invariant that the code keeps: a line that is not Invalid
  has an owner and at least one sharer.
\<close>

definition line_ok :: "CacheLine \<Rightarrow> bool" where
  "line_ok l = (state l = INVALID \<or> (owner l \<noteq> None \<and> sharers l \<noteq> {}))"

definition cache_ok :: "Cache \<Rightarrow> bool" where
  "cache_ok c = list_all (list_all line_ok) (lines c)"

section \<open>Supporting lemmas\<close>


lemma py_index_less: "py_index xs i = Inr n \<Longrightarrow> n < length xs"
  by (auto simp: py_index_def Let_def split: if_splits)

lemma find_hit_Some:
  "find_hit ls tg = Some w \<Longrightarrow> w < length ls \<and> tag (ls ! w) = tg \<and> state (ls ! w) \<noteq> INVALID"
proof (induction ls arbitrary: w)
  case Nil
  then show ?case by simp
next
  case (Cons l ls)
  then show ?case by (auto split: if_splits)
qed

lemma find_hit_None:
  "find_hit ls tg = None \<Longrightarrow> w < length ls \<Longrightarrow> tag (ls ! w) = tg \<Longrightarrow> state (ls ! w) = INVALID"
proof (induction ls arbitrary: w)
  case Nil
  then show ?case by simp
next
  case (Cons l ls)
  then show ?case by (cases w) (auto split: if_splits)
qed

lemma line_at_set_line:
  "fst loc < length (lines c) \<Longrightarrow> snd loc < length (lines c ! fst loc) \<Longrightarrow>
   line_at (set_line c loc l) loc = l"
  by (simp add: line_at_def set_line_def)

lemma set_line_simps:
  "cfg (set_line c loc l) = cfg c" "repl_idx (set_line c loc l) = repl_idx c"
  "length (lines (set_line c loc l)) = length (lines c)"
  by (simp_all add: set_line_def)

lemma probe_hit:
  assumes "probe c addr = Inr (c1, loc, True)"
  shows "c1 = c" "fst loc < length (lines c)" "snd loc < length (lines c ! fst loc)"
    "tag (line_at c loc) = addr div line_bytes (cfg c)" "state (line_at c loc) \<noteq> INVALID"
  using assms
  by (auto simp: probe_def index_tag_def Let_def line_at_def
      split: sum.splits option.splits if_splits prod.splits
      dest: py_index_less find_hit_Some)

lemma probe_miss_cases:
  assumes "probe c addr = Inr (c1, loc, False)"
  obtains idx i j w where
    "index_tag (cfg c) addr = Inr (idx, addr div line_bytes (cfg c))"
    "py_index (lines c) idx = Inr i" "find_hit (lines c ! i) (addr div line_bytes (cfg c)) = None"
    "py_index (repl_idx c) idx = Inr j" "py_index (lines c ! i) (repl_idx c ! j) = Inr w"
    "assoc (cfg c) \<noteq> 0" "loc = (i, w)"
    "c1 = set_line (c\<lparr>repl_idx := (repl_idx c)[j := (repl_idx c ! j + 1) mod assoc (cfg c)]\<rparr>) (i, w)
            ((lines c ! i ! w)\<lparr>tag := addr div line_bytes (cfg c), state := INVALID,
                                owner := None, sharers := {}\<rparr>)"
  using assms
  by (auto simp: probe_def index_tag_def Let_def line_at_def
      split: sum.splits option.splits if_splits prod.splits)

lemma probe_miss:
  assumes "probe c addr = Inr (c1, loc, False)"
  shows "fst loc < length (lines c1)" "snd loc < length (lines c1 ! fst loc)"
    "tag (line_at c1 loc) = addr div line_bytes (cfg c)" "state (line_at c1 loc) = INVALID"
    "owner (line_at c1 loc) = None" "sharers (line_at c1 loc) = {}" "cfg c1 = cfg c"
    "length (lines c1) = length (lines c)"
proof -
  from assms obtain idx i j w where
    i: "py_index (lines c) idx = Inr i" and
    w: "py_index (lines c ! i) (repl_idx c ! j) = Inr w" and
    loc: "loc = (i, w)" and
    c1: "c1 = set_line (c\<lparr>repl_idx := (repl_idx c)[j := (repl_idx c ! j + 1) mod assoc (cfg c)]\<rparr>) (i, w)
            ((lines c ! i ! w)\<lparr>tag := addr div line_bytes (cfg c), state := INVALID,
                                owner := None, sharers := {}\<rparr>)"
    by (rule probe_miss_cases)
  have il: "i < length (lines c)" using i by (rule py_index_less)
  have wl: "w < length (lines c ! i)" using w by (rule py_index_less)
  show "fst loc < length (lines c1)" "snd loc < length (lines c1 ! fst loc)"
    "tag (line_at c1 loc) = addr div line_bytes (cfg c)" "state (line_at c1 loc) = INVALID"
    "owner (line_at c1 loc) = None" "sharers (line_at c1 loc) = {}" "cfg c1 = cfg c"
    "length (lines c1) = length (lines c)"
    using il wl by (simp_all add: loc c1 set_line_def line_at_def)
qed

lemma stat_bump: "stat (bump st k n) k' = (if k' = k then stat st k + n else stat st k')"
  by (simp add: stat_def bump_def)

lemma bump_apply: "bump st k n k' = (if k' = k then Some (stat st k + n) else st k')"
  by (simp add: bump_def)

lemma maybe_detect_invalid:
  "state l = INVALID \<Longrightarrow> maybe_detect cf l core w st lg = (l, st, lg)"
  by (simp add: maybe_detect_def)

lemma maybe_detect_line:
  assumes "maybe_detect cf l core w st lg = (l', st', lg')"
  shows "tag l' = tag l" "state l' = state l" "owner l' = owner l" "sharers l' = sharers l"
    "last_writer_core l' = last_writer_core l" "last_word l' = last_word l"
    "fs_suspect l \<Longrightarrow> fs_suspect l'"
  using assms by (auto simp: maybe_detect_def Let_def split: if_splits)

lemma maybe_detect_stats:
  assumes "maybe_detect cf l core w st lg = (l', st', lg')"
    and "k \<noteq> ''suspect_lines''" "k \<noteq> ''suspect_events''"
  shows "st' k = st k"
  using assms by (auto simp: maybe_detect_def Let_def bump_apply split: if_splits)

lemma access_miss_invalid:
  "state l = INVALID \<Longrightarrow>
   access_miss cf l core iw w tg st lg =
     (l\<lparr>owner := Some core, state := (if iw then MODIFIED else EXCLUSIVE),
        sharers := {Some core}, tag := tg\<rparr>,
      bump (bump st ''misses'' 1) ''stall_cycles'' (miss_latency cf), lg)"
  by (simp add: access_miss_def maybe_detect_invalid)

lemma access_cases:
  assumes "access c core iw addr st lg = Inr (c', st', lg')"
  obtains (hit) w loc l' where "word_idx (cfg c) addr = Inr w" "probe c addr = Inr (c, loc, True)"
      "access_hit (cfg c) (line_at c loc) core iw w st lg = (l', st', lg')"
      "c' = set_line c loc (update_meta l' core iw w)"
  | (miss) w c1 loc l' where "word_idx (cfg c) addr = Inr w" "probe c addr = Inr (c1, loc, False)"
      "access_miss (cfg c) (line_at c1 loc) core iw w (addr div line_bytes (cfg c)) st lg = (l', st', lg')"
      "c' = set_line c1 loc (update_meta l' core iw w)"
proof -
  from assms obtain w c1 loc h where w: "word_idx (cfg c) addr = Inr w"
    and p: "probe c addr = Inr (c1, loc, h)"
    by (auto simp: access_def split: sum.splits prod.splits)
  show thesis
  proof (cases h)
    case True
    with p have c1: "c1 = c" by (simp add: probe_hit(1))
    obtain l' s2 g2 where ah: "access_hit (cfg c) (line_at c loc) core iw w st lg = (l', s2, g2)"
      by (cases "access_hit (cfg c) (line_at c loc) core iw w st lg") auto
    with assms w p True c1 have "st' = s2" "lg' = g2" "c' = set_line c loc (update_meta l' core iw w)"
      by (simp_all add: access_def)
    with ah w p True c1 show thesis by (intro hit[of w loc l']) simp_all
  next
    case False
    obtain l' s2 g2 where am:
      "access_miss (cfg c) (line_at c1 loc) core iw w (addr div line_bytes (cfg c)) st lg = (l', s2, g2)"
      by (cases "access_miss (cfg c) (line_at c1 loc) core iw w (addr div line_bytes (cfg c)) st lg") auto
    with assms w p False have "st' = s2" "lg' = g2" "c' = set_line c1 loc (update_meta l' core iw w)"
      by (simp_all add: access_def)
    with am w p False show thesis by (intro miss[of w c1 loc l']) simp_all
  qed
qed

lemma find_hit_exists:
  assumes "w < length ls" "tag (ls ! w) = tg" "state (ls ! w) \<noteq> INVALID"
  obtains w' where "find_hit ls tg = Some w'"
  using assms find_hit_None[of ls tg w] by (cases "find_hit ls tg") auto

lemma update_meta_fields:
  "tag (update_meta l core iw w) = tag l" "state (update_meta l core iw w) = state l"
  "owner (update_meta l core iw w) = owner l" "sharers (update_meta l core iw w) = sharers l"
  "fs_conf (update_meta l core iw w) = fs_conf l" "fs_suspect (update_meta l core iw w) = fs_suspect l"
  by (simp_all add: update_meta_def)

lemma access_hit_resident:
  assumes "access_hit cf l core iw w st lg = (l', st', lg')" "state l \<noteq> INVALID"
  shows "tag l' = tag l" "state l' \<noteq> INVALID"
proof -
  obtain l1 s1 g1 where md: "maybe_detect cf l core w st lg = (l1, s1, g1)"
    by (cases "maybe_detect cf l core w st lg") auto
  note f = maybe_detect_line[OF md]
  from assms md f show "tag l' = tag l" "state l' \<noteq> INVALID"
    by (auto simp: access_hit_def Let_def split: if_splits prod.splits)
qed

lemma access_hit_counts:
  assumes "access_hit cf l core iw w st lg = (l', st', lg')"
  shows "stat st' ''hits'' = stat st ''hits'' + 1" "stat st' ''misses'' = stat st ''misses''"
proof -
  obtain l1 s1 g1 where md: "maybe_detect cf l core w st lg = (l1, s1, g1)"
    by (cases "maybe_detect cf l core w st lg") auto
  have "s1 ''hits'' = st ''hits''" "s1 ''misses'' = st ''misses''"
    by (simp_all add: maybe_detect_stats[OF md])
  then have s: "stat s1 ''hits'' = stat st ''hits''" "stat s1 ''misses'' = stat st ''misses''"
    by (simp_all add: stat_def)
  from assms md s show "stat st' ''hits'' = stat st ''hits'' + 1" "stat st' ''misses'' = stat st ''misses''"
    by (auto simp: access_hit_def Let_def stat_bump split: if_splits prod.splits)
qed

lemma probe_loc:
  assumes "probe c addr = Inr (c1, loc, h)"
  obtains idx where "index_tag (cfg c) addr = Inr (idx, addr div line_bytes (cfg c))"
    "py_index (lines c) idx = Inr (fst loc)"
  using assms
  by (auto simp: probe_def index_tag_def Let_def
      split: sum.splits option.splits if_splits prod.splits)

lemma index_tag_same_line:
  "addr2 div line_bytes cf = addr div line_bytes cf \<Longrightarrow> index_tag cf addr2 = index_tag cf addr"
  by (simp add: index_tag_def)

lemma word_idx_ok: "word_idx cf addr = Inr w \<Longrightarrow> \<exists>w2. word_idx cf addr2 = Inr w2"
  by (auto simp: word_idx_def split: if_splits)

lemma access_resident_line:
  assumes "access c core iw addr st lg = Inr (c', st', lg')"
  obtains idx loc where "index_tag (cfg c) addr = Inr (idx, addr div line_bytes (cfg c))"
    "py_index (lines c) idx = Inr (fst loc)"
    "snd loc < length (lines c' ! fst loc)"
    "tag (line_at c' loc) = addr div line_bytes (cfg c)" "state (line_at c' loc) \<noteq> INVALID"
    "cfg c' = cfg c" "length (lines c') = length (lines c)"
  using assms
proof (cases rule: access_cases)
  case (hit w loc l')
  note ph = probe_hit[OF hit(2)]
  from hit(2) obtain idx where idx: "index_tag (cfg c) addr = Inr (idx, addr div line_bytes (cfg c))"
    "py_index (lines c) idx = Inr (fst loc)" by (rule probe_loc)
  have la: "line_at c' loc = update_meta l' core iw w"
    using ph(2,3) by (simp add: hit(4) line_at_set_line)
  have "tag l' = tag (line_at c loc)" "state l' \<noteq> INVALID"
    using access_hit_resident[OF hit(3) ph(5)] by simp_all
  with la ph(4) have "tag (line_at c' loc) = addr div line_bytes (cfg c)"
    "state (line_at c' loc) \<noteq> INVALID" by (simp_all add: update_meta_fields)
  moreover have "snd loc < length (lines c' ! fst loc)" "cfg c' = cfg c"
    "length (lines c') = length (lines c)"
    using ph(2,3) by (simp_all add: hit(4) set_line_def)
  ultimately show thesis using idx by (intro that[of idx loc]) simp_all
next
  case (miss w c1 loc l')
  note pm = probe_miss[OF miss(2)]
  from miss(2) obtain idx where idx: "index_tag (cfg c) addr = Inr (idx, addr div line_bytes (cfg c))"
    "py_index (lines c) idx = Inr (fst loc)" by (rule probe_loc)
  have la: "line_at c' loc = update_meta l' core iw w"
    using pm(1,2) by (simp add: miss(4) line_at_set_line)
  from miss(3) pm(4) have "tag l' = addr div line_bytes (cfg c)" "state l' \<noteq> INVALID"
    by (auto simp: access_miss_invalid split: if_splits)
  with la have "tag (line_at c' loc) = addr div line_bytes (cfg c)"
    "state (line_at c' loc) \<noteq> INVALID" by (simp_all add: update_meta_fields)
  moreover have "snd loc < length (lines c' ! fst loc)" "cfg c' = cfg c"
    "length (lines c') = length (lines c)"
    using pm(1,2,7,8) by (simp_all add: miss(4) set_line_def)
  ultimately show thesis using idx by (intro that[of idx loc]) simp_all
qed

lemma py_index_length: "length ys = length xs \<Longrightarrow> py_index ys i = py_index xs i"
  by (simp add: py_index_def)

lemma result_collapse: "\<not> isl r \<Longrightarrow> r = Inr (cache_of r, stats_of r, logger_of r)"
  by (cases r) (simp_all add: cache_of_def stats_of_def logger_of_def)

section \<open>Claims\<close>

subsection \<open>C3: the replacement cursor\<close>

text \<open>
  Claim C3 (amended). The claim says that every call of \<open>probe\<close>, hit or miss, advances
  the round-robin cursor of the addressed set by one modulo the associativity. The code
  returns from the search loop on a hit, before the cursor is touched. What holds: a
  \<open>probe\<close> that returns leaves every cursor as it was on a hit, and on a miss replaces
  the cursor of the addressed set by its successor modulo the associativity, the other
  cursors unchanged.
\<close>

theorem probe_cursor:
  assumes "probe c addr = Inr (c', loc, hit)"
  shows "repl_idx c' =
           (if hit then repl_idx c
            else (repl_idx c)[cursor_pos c addr :=
                   (repl_idx c ! cursor_pos c addr + 1) mod assoc (cfg c)])"
proof (cases hit)
  case True
  with assms have "c' = c" by (auto dest: probe_hit(1))
  with True show ?thesis by simp
next
  case False
  with assms have "probe c addr = Inr (c', loc, False)" by simp
  then obtain idx i j w where
    "index_tag (cfg c) addr = Inr (idx, addr div line_bytes (cfg c))"
    "py_index (repl_idx c) idx = Inr j"
    "c' = set_line (c\<lparr>repl_idx := (repl_idx c)[j := (repl_idx c ! j + 1) mod assoc (cfg c)]\<rparr>) (i, w)
            ((lines c ! i ! w)\<lparr>tag := addr div line_bytes (cfg c), state := INVALID,
                                owner := None, sharers := {}\<rparr>)"
    by (rule probe_miss_cases)
  with False show ?thesis by (simp add: cursor_pos_def set_line_def)
qed

text \<open>
  The theorem at a miss and at a hit, in a cache of two sets with two ways. The probe of
  address 64 in the empty cache is a miss in set 1: the cursors go from \<open>[0, 0]\<close> to
  \<open>[0, 1]\<close>. After the write of core 0 to address 64 the cursors are \<open>[0, 1]\<close>; the probe
  of address 68, in the same line, is a hit and they stay \<open>[0, 1]\<close>.
\<close>

theorem probe_cursor_witness:
  "\<not> isl (probe (Cache_init cfg_small) 64)
   \<and> \<not> snd (snd (projr (probe (Cache_init cfg_small) 64)))
   \<and> repl_idx (Cache_init cfg_small) = [0, 0]
   \<and> repl_idx (fst (projr (probe (Cache_init cfg_small) 64))) = [0, 1]
   \<and> \<not> isl (probe (cache_of (access (Cache_init cfg_small) 0 True 64 Map.empty (Logger_init None))) 68)
   \<and> snd (snd (projr
        (probe (cache_of (access (Cache_init cfg_small) 0 True 64 Map.empty (Logger_init None))) 68)))
   \<and> repl_idx (cache_of (access (Cache_init cfg_small) 0 True 64 Map.empty (Logger_init None))) = [0, 1]
   \<and> repl_idx (fst (projr
        (probe (cache_of (access (Cache_init cfg_small) 0 True 64 Map.empty (Logger_init None))) 68)))
       = [0, 1]"
proof -
  let ?c0 = "Cache_init cfg_small"
  let ?p = "probe ?c0 64"
  let ?c1 = "cache_of (access ?c0 0 True 64 Map.empty (Logger_init None))"
  let ?q = "probe ?c1 68"
  have ok: "\<not> isl ?p" by code_simp
  have miss: "\<not> snd (snd (projr ?p))" by code_simp
  have r0: "repl_idx ?c0 = [0, 0]" by code_simp
  have pos: "cursor_pos ?c0 64 = Suc 0" by code_simp
  have ways: "assoc (cfg ?c0) = 2" by code_simp
  from ok have eq: "?p = Inr (fst (projr ?p), fst (snd (projr ?p)), snd (snd (projr ?p)))"
    by (cases ?p) simp_all
  from probe_cursor[OF eq] miss
  have "repl_idx (fst (projr ?p)) =
          (repl_idx ?c0)[cursor_pos ?c0 64 := (repl_idx ?c0 ! cursor_pos ?c0 64 + 1) mod assoc (cfg ?c0)]"
    by simp
  then have r1: "repl_idx (fst (projr ?p)) = [0, 1]"
    by (simp add: r0 pos ways)
  have okq: "\<not> isl ?q" by code_simp
  have hit: "snd (snd (projr ?q))" by code_simp
  have r2: "repl_idx ?c1 = [0, 1]" by code_simp
  from okq have eq2: "?q = Inr (fst (projr ?q), fst (snd (projr ?q)), snd (snd (projr ?q)))"
    by (cases ?q) simp_all
  from probe_cursor[OF eq2] hit have "repl_idx (fst (projr ?q)) = repl_idx ?c1" by simp
  then have r3: "repl_idx (fst (projr ?q)) = [0, 1]" by (simp add: r2)
  from ok miss r0 r1 okq hit r2 r3 show ?thesis by blast
qed

text \<open>
  Against the claim as stated: with the default geometry, after the trace \<open>0 W 0\<close> the
  cursor of set 0 is 1. A probe of address 0 then returns, is a hit, and leaves that
  cursor at 1, where the claim has it advance to \<open>(1 + 1) mod 8 = 2\<close>.
\<close>

theorem probe_hit_keeps_cursor:
  "\<not> isl (probe (cache_of (run_text Config_default None [''0 W 0''])) 0)
   \<and> snd (snd (projr (probe (cache_of (run_text Config_default None [''0 W 0''])) 0)))
   \<and> repl_idx (cache_of (run_text Config_default None [''0 W 0''])) ! 0 = 1
   \<and> repl_idx (fst (projr (probe (cache_of (run_text Config_default None [''0 W 0''])) 0))) ! 0 = 1
   \<and> (1 + 1) mod assoc Config_default = 2"
  by code_simp

subsection \<open>C10: an accessed line is resident\<close>

text \<open>
  Claim C10. After any \<open>access\<close> to \<open>addr\<close> that returns, a probe of any address
  \<open>addr2\<close> with the same line address (\<open>addr2 // line_bytes = addr // line_bytes\<close>) is
  a hit that leaves the cache untouched, on a line whose state is not Invalid and whose
  tag is \<open>addr // line_bytes\<close>; and the immediately following \<open>access\<close> to \<open>addr2\<close>, by
  any core and of either kind, returns and is counted as a hit and not as a miss.
\<close>

theorem access_then_hit:
  assumes acc: "access c core is_write addr st lg = Inr (c', st', lg')"
    and same: "addr2 div line_bytes (cfg c) = addr div line_bytes (cfg c)"
  shows "\<exists>loc c'' st'' lg''.
           probe c' addr2 = Inr (c', loc, True)
         \<and> tag (line_at c' loc) = addr div line_bytes (cfg c)
         \<and> state (line_at c' loc) \<noteq> INVALID
         \<and> access c' core2 is_write2 addr2 st' lg' = Inr (c'', st'', lg'')
         \<and> stat st'' ''hits'' = stat st' ''hits'' + 1
         \<and> stat st'' ''misses'' = stat st' ''misses''"
proof -
  let ?tg = "addr div line_bytes (cfg c)"
  from acc obtain idx loc where r:
    "index_tag (cfg c) addr = Inr (idx, ?tg)"
    "py_index (lines c) idx = Inr (fst loc)"
    "snd loc < length (lines c' ! fst loc)"
    "tag (line_at c' loc) = ?tg" "state (line_at c' loc) \<noteq> INVALID"
    "cfg c' = cfg c" "length (lines c') = length (lines c)"
    by (rule access_resident_line)
  from r(3,4,5) have "snd loc < length (lines c' ! fst loc)"
    "tag (lines c' ! fst loc ! snd loc) = ?tg" "state (lines c' ! fst loc ! snd loc) \<noteq> INVALID"
    by (simp_all add: line_at_def)
  then obtain w' where fh: "find_hit (lines c' ! fst loc) ?tg = Some w'"
    by (rule find_hit_exists)
  have "index_tag (cfg c) addr2 = index_tag (cfg c) addr"
    using same by (rule index_tag_same_line)
  then have it: "index_tag (cfg c') addr2 = Inr (idx, ?tg)"
    using r(1,6) by simp
  have pi: "py_index (lines c') idx = Inr (fst loc)"
    using py_index_length[OF r(7), of idx] r(2) by simp
  have pr: "probe c' addr2 = Inr (c', (fst loc, w'), True)"
    by (simp add: probe_def it pi fh)
  note fhs = find_hit_Some[OF fh]
  have tg: "tag (line_at c' (fst loc, w')) = ?tg" "state (line_at c' (fst loc, w')) \<noteq> INVALID"
    using fhs by (simp_all add: line_at_def)
  from acc obtain w where "word_idx (cfg c) addr = Inr w"
    by (auto simp: access_def split: sum.splits)
  then obtain w2 where w2: "word_idx (cfg c') addr2 = Inr w2"
    using word_idx_ok[of "cfg c" addr w addr2] r(6) by auto
  obtain l2 s2 g2 where ah:
    "access_hit (cfg c') (line_at c' (fst loc, w')) core2 is_write2 w2 st' lg' = (l2, s2, g2)"
    by (cases "access_hit (cfg c') (line_at c' (fst loc, w')) core2 is_write2 w2 st' lg'") auto
  have a2: "access c' core2 is_write2 addr2 st' lg' =
              Inr (set_line c' (fst loc, w') (update_meta l2 core2 is_write2 w2), s2, g2)"
    by (simp add: access_def w2 pr ah)
  note cnt = access_hit_counts[OF ah]
  show ?thesis
    apply (rule exI[of _ "(fst loc, w')"])
    apply (rule exI[of _ "set_line c' (fst loc, w') (update_meta l2 core2 is_write2 w2)"])
    apply (rule exI[of _ s2])
    apply (rule exI[of _ g2])
    apply (intro conjI)
         apply (rule pr)
        apply (rule tg(1))
       apply (rule tg(2))
      apply (rule a2)
     apply (rule cnt(1))
    apply (rule cnt(2))
    done
qed

text \<open>
  The theorem at a write of core 0 to address 64 in an empty cache of one set and one
  way, followed by a read of core 1 at address 68, which is in the same line.
\<close>

theorem access_then_hit_witness:
  "\<not> isl (access (Cache_init cfg_1way) 0 True 64 Map.empty (Logger_init None))
   \<and> (68::int) div line_bytes cfg_1way = 64 div line_bytes cfg_1way
   \<and> (\<exists>loc c'' st'' lg''.
         probe (cache_of (access (Cache_init cfg_1way) 0 True 64 Map.empty (Logger_init None))) 68
           = Inr (cache_of (access (Cache_init cfg_1way) 0 True 64 Map.empty (Logger_init None)), loc, True)
       \<and> access (cache_of (access (Cache_init cfg_1way) 0 True 64 Map.empty (Logger_init None))) 1 False 68
            (stats_of (access (Cache_init cfg_1way) 0 True 64 Map.empty (Logger_init None)))
            (logger_of (access (Cache_init cfg_1way) 0 True 64 Map.empty (Logger_init None)))
           = Inr (c'', st'', lg'')
       \<and> stat st'' ''hits'' =
           stat (stats_of (access (Cache_init cfg_1way) 0 True 64 Map.empty (Logger_init None))) ''hits'' + 1)"
proof -
  let ?a = "access (Cache_init cfg_1way) 0 True 64 Map.empty (Logger_init None)"
  have ok: "\<not> isl ?a" by code_simp
  have eq: "?a = Inr (cache_of ?a, stats_of ?a, logger_of ?a)"
    using ok by (rule result_collapse)
  have same: "(68::int) div line_bytes (cfg (Cache_init cfg_1way)) = 64 div line_bytes (cfg (Cache_init cfg_1way))"
    by (simp add: Cache_init_def cfg_1way_def Config_default_def)
  from access_then_hit[OF eq same, of 1 False] obtain loc c'' st'' lg'' where
    "probe (cache_of ?a) 68 = Inr (cache_of ?a, loc, True)"
    "access (cache_of ?a) 1 False 68 (stats_of ?a) (logger_of ?a) = Inr (c'', st'', lg'')"
    "stat st'' ''hits'' = stat (stats_of ?a) ''hits'' + 1"
    by blast
  then have "\<exists>loc c'' st'' lg''.
         probe (cache_of ?a) 68 = Inr (cache_of ?a, loc, True)
       \<and> access (cache_of ?a) 1 False 68 (stats_of ?a) (logger_of ?a) = Inr (c'', st'', lg'')
       \<and> stat st'' ''hits'' = stat (stats_of ?a) ''hits'' + 1"
    by blast
  moreover have "(68::int) div line_bytes cfg_1way = 64 div line_bytes cfg_1way"
    by (simp add: cfg_1way_def Config_default_def)
  ultimately show ?thesis using ok by blast
qed

end
